theory Spec2Isabelle
  imports Complex_Main
begin

section \<open>wErase: the edit modal and the application state\<close>

text \<open>
  The development embeds two components of the repository:
  \<^item> \<^verbatim>\<open>src/components/EditModal.tsx\<close>: the editing state (background, effect, the three
    slider values) and \<^verbatim>\<open>applyChanges\<close>, which renders the preview on a canvas;
  \<^item> \<^verbatim>\<open>src/App.tsx\<close>: the image list, \<^verbatim>\<open>onDrop\<close>, \<^verbatim>\<open>handleModelChange\<close> and the delete
    callback.
  React state variables become record fields; a handler becomes a function from the state
  before the handler to the state after it. What the browser or \<^verbatim>\<open>lib/process\<close> provide
  (the 2D canvas context, image loading, \<^verbatim>\<open>initializeModel\<close>, \<^verbatim>\<open>processImages\<close>,
  \<^verbatim>\<open>Date.now\<close>) is a parameter of the function that calls it.
\<close>

subsection \<open>Files\<close>

text \<open>A \<^verbatim>\<open>File\<close> is an opaque handle; the model names it by a string.\<close>

type_synonym file_handle = string

text \<open>The \<^verbatim>\<open>ImageFile\<close> interface of \<^verbatim>\<open>App.tsx\<close>; an absent \<^verbatim>\<open>processedFile\<close> is \<open>None\<close>.\<close>

record ImageFile =
  image_id :: int
  inputFile :: file_handle
  processedFile :: "file_handle option"

subsection \<open>EditModal: the editing state\<close>

text \<open>
  The \<^verbatim>\<open>useState\<close> variables of \<^verbatim>\<open>EditModal\<close>, with their initial values. The slider is an
  \<^verbatim>\<open>input type="range" min="0" max="100"\<close>, so its values are integers.
\<close>

record EditState =
  bgType :: string
  bgColor :: string
  customBgImage :: "file_handle option"
  selectedEffect :: string
  blurValue :: int
  brightnessValue :: int
  contrastValue :: int
  exportUrl :: string
  showCustomColorPicker :: bool

definition initialEditState :: EditState where
  "initialEditState =
     \<lparr>bgType = ''color'', bgColor = ''#ffffff'', customBgImage = None,
      selectedEffect = ''none'', blurValue = 50, brightnessValue = 50,
      contrastValue = 50, exportUrl = '''', showCustomColorPicker = False\<rparr>"

definition getCurrentEffectValue :: "EditState \<Rightarrow> int" where
  "getCurrentEffectValue st =
     (if selectedEffect st = ''blur'' then blurValue st
      else if selectedEffect st = ''brightness'' then brightnessValue st
      else if selectedEffect st = ''contrast'' then contrastValue st
      else 50)"

definition handleEffectValueChange :: "int \<Rightarrow> EditState \<Rightarrow> EditState" where
  "handleEffectValueChange v st =
     (if selectedEffect st = ''blur'' then st\<lparr>blurValue := v\<rparr>
      else if selectedEffect st = ''brightness'' then st\<lparr>brightnessValue := v\<rparr>
      else if selectedEffect st = ''contrast'' then st\<lparr>contrastValue := v\<rparr>
      else st)"

text \<open>The effect buttons call \<^verbatim>\<open>setSelectedEffect(option.id)\<close>.\<close>

definition setSelectedEffect :: "string \<Rightarrow> EditState \<Rightarrow> EditState" where
  "setSelectedEffect k st = st\<lparr>selectedEffect := k\<rparr>"

subsection \<open>Pixel data\<close>

text \<open>
  \<^verbatim>\<open>ctx.getImageData(...).data\<close> is a \<^verbatim>\<open>Uint8ClampedArray\<close>: a flat array of channel values,
  four per pixel (red, green, blue, alpha). The model is an \<open>int list\<close>.

  A store \<^verbatim>\<open>data[i] = x\<close> into a \<^verbatim>\<open>Uint8ClampedArray\<close> converts the number \<open>x\<close> with
  ECMAScript's \<^verbatim>\<open>ToUint8Clamp\<close>: clamp to \<open>[0, 255]\<close>, then round to the nearest integer,
  a tie going to the even neighbour. A store at an index outside the array is ignored, which
  is what \<open>xs[i := v]\<close> does in HOL.

  JavaScript numbers are IEEE 754 doubles, and every arithmetic operation rounds its exact
  result to the nearest double. The brightness loop is computed that way (\<open>binary64\<close>
  below); the contrast loop is computed in exact rationals, an idealisation.
\<close>

definition toUint8Clamp :: "rat \<Rightarrow> int" where
  "toUint8Clamp x =
     (let clamped = min (max x 0) 255;
          f = \<lfloor>clamped\<rfloor>
      in if clamped < of_int f + 1 / 2 then f
         else if of_int f + 1 / 2 < clamped then f + 1
         else if even f then f else f + 1)"

text \<open>
  A statement \<^verbatim>\<open>data[k] = g(data[k])\<close>. Inside the array the new value is converted by
  \<^verbatim>\<open>ToUint8Clamp\<close>; past the end the read yields \<^verbatim>\<open>undefined\<close> and the store is ignored.
\<close>

definition set_channel :: "(rat \<Rightarrow> rat) \<Rightarrow> nat \<Rightarrow> int list \<Rightarrow> int list" where
  "set_channel g k data =
     (if k < length data then data[k := toUint8Clamp (g (of_int (data ! k)))] else data)"

text \<open>
  Rounding to the nearest integer with ties to the even one, and \<open>binary64\<close>: the double
  nearest to a rational, ties to the even significand. A double has 53 significant bits, so
  in the binade \<open>2^e \<le> |x| < 2^(e+1)\<close> the doubles are the multiples of \<open>2^(e-52)\<close>; below
  \<open>2^-1022\<close> (subnormal numbers) they are the multiples of \<open>2^-1074\<close>. \<open>binade\<close> finds
  \<open>e\<close> by halving or doubling, at most \<open>fuel\<close> times. Magnitudes of \<open>2^1024\<close> and more,
  which round to an infinity, are not modelled; nothing here comes near them.
\<close>

definition round_half_even :: "rat \<Rightarrow> int" where
  "round_half_even x =
     (let f = \<lfloor>x\<rfloor>
      in if x < of_int f + 1 / 2 then f
         else if of_int f + 1 / 2 < x then f + 1
         else if even f then f else f + 1)"

fun binade :: "nat \<Rightarrow> rat \<Rightarrow> int" where
  "binade 0 x = 0"
| "binade (Suc fuel) x =
     (if 2 \<le> x then binade fuel (x / 2) + 1
      else if x < 1 then binade fuel (2 * x) - 1
      else 0)"

definition binary64 :: "rat \<Rightarrow> rat" where
  "binary64 x =
     (if x = 0 then 0
      else
        (let e = max (binade 1100 \<bar>x\<bar>) (- 1022);
             quantum = 2 powi (e - 52)
         in of_int (round_half_even (x / quantum)) * quantum))"

text \<open>The operators \<^verbatim>\<open>*\<close> and \<^verbatim>\<open>/\<close> on two doubles.\<close>

definition double_mul :: "rat \<Rightarrow> rat \<Rightarrow> rat" where
  "double_mul a b = binary64 (a * b)"

definition double_div :: "rat \<Rightarrow> rat \<Rightarrow> rat" where
  "double_div a b = binary64 (a / b)"

text \<open>
  The brightness loop of \<^verbatim>\<open>applyChanges\<close>:
  \<^verbatim>\<open>for (let i = 0; i < data.length; i += 4) {
    data[i]     = Math.min(255, data[i]     * (brightnessValue / 50));
    data[i + 1] = Math.min(255, data[i + 1] * (brightnessValue / 50));
    data[i + 2] = Math.min(255, data[i + 2] * (brightnessValue / 50)); }\<close>
\<close>

function brightness_loop :: "int \<Rightarrow> nat \<Rightarrow> int list \<Rightarrow> int list" where
  "brightness_loop bv i data =
     (if i < length data then
        brightness_loop bv (i + 4)
          (set_channel (\<lambda>c. min 255 (double_mul c (double_div (of_int bv) 50))) (i + 2)
            (set_channel (\<lambda>c. min 255 (double_mul c (double_div (of_int bv) 50))) (i + 1)
              (set_channel (\<lambda>c. min 255 (double_mul c (double_div (of_int bv) 50))) i data)))
      else data)"
  by pat_completeness auto
termination
  by (relation "measure (\<lambda>(bv, i, data). length data - i)") (auto simp: set_channel_def)

declare brightness_loop.simps [simp del]

text \<open>
  The contrast factor and loop:
  \<^verbatim>\<open>const factor = (259 * (contrastValue + 255)) / (255 * (259 - contrastValue));
  for (let i = 0; i < data.length; i += 4) {
    data[i]     = factor * (data[i]     - 128) + 128;
    data[i + 1] = factor * (data[i + 1] - 128) + 128;
    data[i + 2] = factor * (data[i + 2] - 128) + 128; }\<close>
  The slider keeps \<open>contrastValue\<close> within \<open>[0, 100]\<close>, so the divisor is never zero there.
\<close>

definition contrast_factor :: "int \<Rightarrow> rat" where
  "contrast_factor cv =
     (259 * (of_int cv + 255)) / (255 * (259 - of_int cv))"

function contrast_loop :: "rat \<Rightarrow> nat \<Rightarrow> int list \<Rightarrow> int list" where
  "contrast_loop factor i data =
     (if i < length data then
        contrast_loop factor (i + 4)
          (set_channel (\<lambda>c. factor * (c - 128) + 128) (i + 2)
            (set_channel (\<lambda>c. factor * (c - 128) + 128) (i + 1)
              (set_channel (\<lambda>c. factor * (c - 128) + 128) i data)))
      else data)"
  by pat_completeness auto
termination
  by (relation "measure (\<lambda>(factor, i, data). length data - i)") (auto simp: set_channel_def)

declare contrast_loop.simps [simp del]

subsection \<open>The canvas and applyChanges\<close>

text \<open>
  A canvas surface or a decoded image: its dimensions and its RGBA data. A canvas whose
  width and height have just been set is transparent black.
\<close>

record bitmap =
  width :: nat
  height :: nat
  pixels :: "int list"

definition blank :: "nat \<Rightarrow> nat \<Rightarrow> bitmap" where
  "blank w h = \<lparr>width = w, height = h, pixels = replicate (4 * w * h) 0\<rparr>"

text \<open>
  The drawing operations of \<^verbatim>\<open>CanvasRenderingContext2D\<close> belong to the browser, so they are
  parameters. Each takes the context settings it reads (\<^verbatim>\<open>fillStyle\<close>, \<^verbatim>\<open>filter\<close>), its
  arguments and the surface, and returns the surface after the call. \<open>drawImage\<close> is the
  three-argument form \<^verbatim>\<open>drawImage(image, dx, dy)\<close>, \<open>drawImageScaled\<close> the five-argument
  form \<^verbatim>\<open>drawImage(image, dx, dy, dWidth, dHeight)\<close>.
\<close>

datatype canvas_filter = FilterNone | FilterBlurPx rat

record canvas_api =
  fillRect :: "string \<Rightarrow> int \<Rightarrow> int \<Rightarrow> nat \<Rightarrow> nat \<Rightarrow> bitmap \<Rightarrow> bitmap"
  clearRect :: "int \<Rightarrow> int \<Rightarrow> nat \<Rightarrow> nat \<Rightarrow> bitmap \<Rightarrow> bitmap"
  drawImage :: "canvas_filter \<Rightarrow> bitmap \<Rightarrow> int \<Rightarrow> int \<Rightarrow> bitmap \<Rightarrow> bitmap"
  drawImageScaled :: "canvas_filter \<Rightarrow> bitmap \<Rightarrow> int \<Rightarrow> int \<Rightarrow> nat \<Rightarrow> nat \<Rightarrow> bitmap \<Rightarrow> bitmap"
  toDataURL :: "string \<Rightarrow> bitmap \<Rightarrow> string"

text \<open>
  \<^verbatim>\<open>await new Promise(resolve => img.onload = resolve)\<close> continues when the \<^verbatim>\<open>load\<close> event
  fires. An image that cannot be decoded fires \<^verbatim>\<open>error\<close> instead, for which the code
  registers no handler: the promise never settles and the function never continues. The
  parameter \<open>loadImage\<close> gives the decoded image, or \<open>None\<close> when \<^verbatim>\<open>load\<close> never fires; an
  asynchronous function either settles with the state it leaves or stays pending for ever.
\<close>

datatype 'a async = Settled 'a | Pending

text \<open>The block under \<^verbatim>\<open>// Apply background\<close>.\<close>

definition paintBackground ::
  "canvas_api \<Rightarrow> (file_handle \<Rightarrow> bitmap option) \<Rightarrow> EditState \<Rightarrow> bitmap \<Rightarrow> bitmap async" where
  "paintBackground api loadImage st canvas =
     (if bgType st = ''color'' then
        Settled (fillRect api (bgColor st) 0 0 (width canvas) (height canvas) canvas)
      else if bgType st = ''image'' \<and> customBgImage st \<noteq> None then
        (case loadImage (the (customBgImage st)) of
           None \<Rightarrow> Pending
         | Some bgImg \<Rightarrow>
             Settled (drawImageScaled api FilterNone bgImg 0 0
                        (width canvas) (height canvas) canvas))
      else Settled canvas)"

text \<open>
  The block under \<^verbatim>\<open>// Apply effects\<close>. \<open>tempCtxOk\<close> says whether the temporary canvas of the
  blur case got a 2D context. \<^verbatim>\<open>putImageData(imageData, 0, 0)\<close> replaces the surface's data.
\<close>

definition applyEffects :: "canvas_api \<Rightarrow> bool \<Rightarrow> EditState \<Rightarrow> bitmap \<Rightarrow> bitmap" where
  "applyEffects api tempCtxOk st canvas =
     (if selectedEffect st \<noteq> ''none'' then
        (let data = pixels canvas in
         if selectedEffect st = ''blur'' then
           (if \<not> tempCtxOk then canvas
            else
              (let tempCanvas = drawImage api FilterNone canvas 0 0
                                  (blank (width canvas) (height canvas));
                   cleared = clearRect api 0 0 (width canvas) (height canvas) canvas
               in drawImage api (FilterBlurPx (of_int (blurValue st) / 10)) tempCanvas 0 0 cleared))
         else if selectedEffect st = ''brightness'' then
           canvas\<lparr>pixels := brightness_loop (brightnessValue st) 0 data\<rparr>
         else if selectedEffect st = ''contrast'' then
           canvas\<lparr>pixels := contrast_loop (contrast_factor (contrastValue st)) 0 data\<rparr>
         else canvas)
      else canvas)"

text \<open>
  \<open>applyChanges\<close>: \<open>selected\<close> is the \<^verbatim>\<open>image\<close> property of the modal, \<open>ctxOk\<close> says whether
  \<^verbatim>\<open>canvas.getContext('2d')\<close> returned a context. The result is the editing state after
  \<^verbatim>\<open>setExportUrl(dataUrl)\<close>, the unchanged state after an early \<^verbatim>\<open>return\<close>, or \<open>Pending\<close>.
\<close>

definition applyChanges ::
  "canvas_api \<Rightarrow> (file_handle \<Rightarrow> bitmap option) \<Rightarrow> bool \<Rightarrow> bool \<Rightarrow> ImageFile option
     \<Rightarrow> EditState \<Rightarrow> EditState async" where
  "applyChanges api loadImage ctxOk tempCtxOk selected st =
     (case selected of
        None \<Rightarrow> Settled st
      | Some im \<Rightarrow>
          (case processedFile im of
             None \<Rightarrow> Settled st
           | Some processed \<Rightarrow>
               (if \<not> ctxOk then Settled st
                else
                  (case loadImage processed of
                     None \<Rightarrow> Pending
                   | Some img \<Rightarrow>
                       (case paintBackground api loadImage st (blank (width img) (height img)) of
                          Pending \<Rightarrow> Pending
                        | Settled background \<Rightarrow>
                            Settled (st\<lparr>exportUrl :=
                              toDataURL api ''image/png''
                                (applyEffects api tempCtxOk st
                                   (drawImage api FilterNone img 0 0 background))\<rparr>))))))"

subsection \<open>App: the application state\<close>

text \<open>
  A value caught by \<^verbatim>\<open>catch (err)\<close>: an \<^verbatim>\<open>Error\<close> with its message, or anything else. An awaited
  call of \<^verbatim>\<open>lib/process\<close> resolves with a value or rejects with a thrown one.
\<close>

datatype thrown = ErrorObj string | OtherValue

datatype 'a settled = Resolved 'a | Rejected thrown

text \<open>
  The \<^verbatim>\<open>useState\<close> variables of \<^verbatim>\<open>App\<close>. \<open>errorMessage\<close> is \<^verbatim>\<open>error\<close> (\<open>None\<close> for \<^verbatim>\<open>null\<close>);
  \<open>consoleErrors\<close> collects what \<^verbatim>\<open>console.error\<close> is called with.
\<close>

record AppState =
  isLoading :: bool
  errorMessage :: "string option"
  isWebGPU :: bool
  isIOS :: bool
  currentModel :: string
  isModelSwitching :: bool
  images :: "ImageFile list"
  showCamera :: bool
  consoleErrors :: "thrown list"

definition initialAppState :: AppState where
  "initialAppState =
     \<lparr>isLoading = True, errorMessage = None, isWebGPU = False, isIOS = False,
      currentModel = ''briaai/RMBG-1.4'', isModelSwitching = False, images = [],
      showCamera = False, consoleErrors = []\<rparr>"

text \<open>\<^verbatim>\<open>String.prototype.includes\<close>.\<close>

fun str_includes :: "string \<Rightarrow> string \<Rightarrow> bool" where
  "str_includes [] t = (t = [])"
| "str_includes (c # cs) t = (take (length t) (c # cs) = t \<or> str_includes cs t)"

text \<open>
  \<open>handleModelChange\<close>: \<open>newModel\<close> is \<^verbatim>\<open>event.target.value\<close>. The \<^verbatim>\<open>throw\<close> inside \<^verbatim>\<open>try\<close> is
  caught by the same \<^verbatim>\<open>catch\<close> as a rejection of \<^verbatim>\<open>initializeModel\<close>.
\<close>

definition handleModelChange ::
  "(string option \<Rightarrow> bool settled) \<Rightarrow> string \<Rightarrow> AppState \<Rightarrow> AppState" where
  "handleModelChange initializeModel newModel s =
     (let s1 = s\<lparr>isModelSwitching := True, errorMessage := None\<rparr>;
          attempt =
            (case initializeModel (Some newModel) of
               Resolved initialized \<Rightarrow>
                 (if \<not> initialized then Rejected (ErrorObj ''Failed to initialize new model'')
                  else Resolved initialized)
             | Rejected err \<Rightarrow> Rejected err);
          s2 =
            (case attempt of
               Resolved _ \<Rightarrow> s1\<lparr>currentModel := newModel\<rparr>
             | Rejected err \<Rightarrow>
                 (if (case err of ErrorObj message \<Rightarrow> str_includes message ''Falling back''
                      | OtherValue \<Rightarrow> False)
                  then s1\<lparr>currentModel := ''briaai/RMBG-1.4''\<rparr>
                  else s1\<lparr>errorMessage :=
                         Some (case err of ErrorObj message \<Rightarrow> message
                               | OtherValue \<Rightarrow> ''Failed to switch models'')\<rparr>))
      in s2\<lparr>isModelSwitching := False\<rparr>)"

text \<open>
  The records of a drop,
  \<^verbatim>\<open>acceptedFiles.map((file, index) => ({ id: Date.now() + index, file, processedFile: undefined }))\<close>.
  The clock is read once for every file: \<open>now index\<close> is the value \<^verbatim>\<open>Date.now()\<close> returns in
  the call for the file at \<open>index\<close>.
\<close>

definition newImages :: "(nat \<Rightarrow> int) \<Rightarrow> file_handle list \<Rightarrow> ImageFile list" where
  "newImages now acceptedFiles =
     map (\<lambda>(index, f). \<lparr>image_id = now index + int index, inputFile = f, processedFile = None\<rparr>)
       (enumerate 0 acceptedFiles)"

text \<open>
  The update of the processing loop,
  \<^verbatim>\<open>prev.map(img => img.id === image.id ? { ...img, processedFile: result[0] } : img)\<close>, and
  the delete callback, \<^verbatim>\<open>prev.filter(img => img.id !== id)\<close>.
\<close>

definition attachResult :: "int \<Rightarrow> file_handle \<Rightarrow> ImageFile list \<Rightarrow> ImageFile list" where
  "attachResult i result0 prev =
     map (\<lambda>img. if image_id img = i then img\<lparr>processedFile := Some result0\<rparr> else img) prev"

definition onDelete :: "int \<Rightarrow> AppState \<Rightarrow> AppState" where
  "onDelete i s = s\<lparr>images := filter (\<lambda>img. image_id img \<noteq> i) (images s)\<rparr>"

text \<open>
  The loop \<^verbatim>\<open>for (const image of newImages)\<close> of \<^verbatim>\<open>onDrop\<close>. \<open>processImages\<close> gives the outcome
  of \<^verbatim>\<open>await processImages([image.file])\<close>: the result array (\<open>None\<close> for a null result) or a
  rejection, which the \<^verbatim>\<open>catch\<close> inside the loop logs.
\<close>

fun processLoop ::
  "(file_handle \<Rightarrow> file_handle list option settled) \<Rightarrow> ImageFile list \<Rightarrow> AppState \<Rightarrow> AppState" where
  "processLoop processImages [] s = s"
| "processLoop processImages (im # rest) s =
     processLoop processImages rest
       (case processImages (inputFile im) of
          Resolved result \<Rightarrow>
            (case result of
               Some (result0 # _) \<Rightarrow>
                 s\<lparr>images := attachResult (image_id im) result0 (images s)\<rparr>
             | _ \<Rightarrow> s)
        | Rejected err \<Rightarrow> s\<lparr>consoleErrors := consoleErrors s @ [err]\<rparr>)"

text \<open>
  \<open>onDrop\<close>, run without another handler interleaving at its \<^verbatim>\<open>await\<close>s. \<open>now\<close> is the
  clock as above, \<open>isWebGPUSupported\<close> what \<^verbatim>\<open>getModelInfo()\<close> reports after the
  initialization. The test \<^verbatim>\<open>images.length === 0\<close> reads the \<^verbatim>\<open>images\<close> of the render that
  created the callback (\<^verbatim>\<open>useCallback\<close> with the dependency \<^verbatim>\<open>images.length\<close>), not the list
  that \<^verbatim>\<open>setImages\<close> updates: \<open>closureLength\<close> is that length, and it may be stale.
\<close>

definition onDrop ::
  "(string option \<Rightarrow> bool settled) \<Rightarrow> bool
     \<Rightarrow> (file_handle \<Rightarrow> file_handle list option settled)
     \<Rightarrow> (nat \<Rightarrow> int) \<Rightarrow> file_handle list \<Rightarrow> nat \<Rightarrow> AppState \<Rightarrow> AppState" where
  "onDrop initializeModel isWebGPUSupported processImages now acceptedFiles closureLength s =
     (let batch = newImages now acceptedFiles;
          s1 = s\<lparr>images := images s @ batch\<rparr>
      in if closureLength = 0 then
           (let s2 = s1\<lparr>isLoading := True, errorMessage := None\<rparr>;
                attempt =
                  (case initializeModel None of
                     Resolved initialized \<Rightarrow>
                       (if \<not> initialized
                        then Rejected (ErrorObj ''Failed to initialize background removal model'')
                        else Resolved initialized)
                   | Rejected err \<Rightarrow> Rejected err)
            in case attempt of
                 Rejected err \<Rightarrow>
                   s2\<lparr>errorMessage :=
                        Some (case err of ErrorObj message \<Rightarrow> message
                              | OtherValue \<Rightarrow> ''An unknown error occurred''),
                      images := [], isLoading := False\<rparr>
               | Resolved _ \<Rightarrow>
                   processLoop processImages batch
                     (s2\<lparr>isWebGPU := isWebGPUSupported, isLoading := False\<rparr>))
         else processLoop processImages batch s1)"

text \<open>
  The image list changes only through \<^verbatim>\<open>setImages\<close>, and each call is one atomic update of
  the list: the append of a drop, the completion of one image in the processing loop, the
  deletion of a record, and the reset \<^verbatim>\<open>setImages([])\<close> after a failed initialization. At
  the \<^verbatim>\<open>await\<close>s of the handlers these updates interleave, so a run of the application is a
  sequence of them. \<open>issued\<close> lists the ids an update gives to new records.
\<close>

datatype list_update =
  Append "nat \<Rightarrow> int" "file_handle list"
| Completion int file_handle
| Deletion int
| Reset

fun applyUpdate :: "list_update \<Rightarrow> AppState \<Rightarrow> AppState" where
  "applyUpdate (Append now acceptedFiles) s =
     s\<lparr>images := images s @ newImages now acceptedFiles\<rparr>"
| "applyUpdate (Completion i result0) s = s\<lparr>images := attachResult i result0 (images s)\<rparr>"
| "applyUpdate (Deletion i) s = onDelete i s"
| "applyUpdate Reset s = s\<lparr>images := []\<rparr>"

fun issued :: "list_update \<Rightarrow> int list" where
  "issued (Append now acceptedFiles) = map image_id (newImages now acceptedFiles)"
| "issued (Completion i result0) = []"
| "issued (Deletion i) = []"
| "issued Reset = []"

subsection \<open>A small canvas for concrete runs\<close>

text \<open>
  A stand-in for the browser's canvas, used only where a theorem is run on a concrete
  input: filling paints every channel 255, clearing paints 0, drawing an image keeps the
  surface wherever the image's channel is 0, a scaled draw repeats the image's first
  channel (0 for an image without data), and the data URL is the MIME type followed by one character per channel, the
  character whose code is the channel's value.
\<close>

definition sample_api :: canvas_api where
  "sample_api =
     \<lparr>fillRect = (\<lambda>style x y w h canvas. canvas\<lparr>pixels := replicate (4 * w * h) 255\<rparr>),
      clearRect = (\<lambda>x y w h canvas. canvas\<lparr>pixels := replicate (4 * w * h) 0\<rparr>),
      drawImage = (\<lambda>flt src dx dy canvas.
         canvas\<lparr>pixels := map (\<lambda>(s, d). if s = 0 then d else s) (zip (pixels src) (pixels canvas))\<rparr>),
      drawImageScaled = (\<lambda>flt src dx dy w h canvas.
         canvas\<lparr>pixels := replicate (4 * w * h) (case pixels src of [] \<Rightarrow> 0 | v # _ \<Rightarrow> v)\<rparr>),
      toDataURL = (\<lambda>mime canvas. mime @ map (\<lambda>v. char_of (v mod 256)) (pixels canvas))\<rparr>"

section \<open>Theorems\<close>

subsection \<open>Channel stores and the two pixel loops\<close>

lemma toUint8Clamp_range: "0 \<le> toUint8Clamp x \<and> toUint8Clamp x \<le> 255"
proof -
  define c where "c = min (max x 0) 255"
  have c: "0 \<le> c" "c \<le> 255" by (simp_all add: c_def)
  have f: "of_int \<lfloor>c\<rfloor> \<le> c" "c < of_int \<lfloor>c\<rfloor> + 1" by linarith+
  have f0: "0 \<le> \<lfloor>c\<rfloor>" using c by simp
  have f255: "\<lfloor>c\<rfloor> \<le> 255" using c f by linarith
  have up: "of_int \<lfloor>c\<rfloor> + 1 / 2 \<le> c \<Longrightarrow> \<lfloor>c\<rfloor> + 1 \<le> 255" using c f by linarith
  show ?thesis
    unfolding toUint8Clamp_def Let_def c_def [symmetric]
    using f0 f255 up by auto
qed

lemma toUint8Clamp_near: "\<bar>of_int (toUint8Clamp x) - min (max x 0) 255\<bar> \<le> 1 / 2"
proof -
  define c where "c = min (max x 0) 255"
  have f: "of_int \<lfloor>c\<rfloor> \<le> c" "c < of_int \<lfloor>c\<rfloor> + 1" by linarith+
  show ?thesis
    unfolding toUint8Clamp_def Let_def c_def [symmetric]
    using f by auto
qed

lemma toUint8Clamp_int: "0 \<le> n \<Longrightarrow> n \<le> 255 \<Longrightarrow> toUint8Clamp (of_int n) = n"
  unfolding toUint8Clamp_def Let_def
  by (auto simp: min_def max_def)

lemma length_set_channel: "length (set_channel g k data) = length data"
  by (simp add: set_channel_def)

lemma nth_set_channel:
  "j < length data \<Longrightarrow>
   set_channel g k data ! j = (if j = k then toUint8Clamp (g (of_int (data ! j))) else data ! j)"
  by (simp add: set_channel_def)

lemma length_brightness_loop: "length (brightness_loop bv i data) = length data"
  by (induction bv i data rule: brightness_loop.induct)
     (subst brightness_loop.simps, simp add: length_set_channel)

lemma loop_index_split:
  "4 dvd i \<Longrightarrow>
   (i \<le> j \<and> j mod 4 \<noteq> 3) =
   (j = i \<or> j = i + 1 \<or> j = i + 2 \<or> (i + 4 \<le> j \<and> j mod 4 \<noteq> 3))"
  for i j :: nat
  by presburger

lemma nth_brightness_loop:
  "4 dvd i \<Longrightarrow> j < length data \<Longrightarrow>
   brightness_loop bv i data ! j =
     (if i \<le> j \<and> j mod 4 \<noteq> 3
      then toUint8Clamp (min 255 (double_mul (of_int (data ! j)) (double_div (of_int bv) 50)))
      else data ! j)"
proof (induction bv i data rule: brightness_loop.induct)
  case (1 bv i data)
  show ?case
  proof (cases "i < length data")
    case False
    with "1.prems" show ?thesis by (subst brightness_loop.simps) simp
  next
    case True
    let ?g = "\<lambda>c. min 255 (double_mul c (double_div (rat_of_int bv) 50))"
    let ?d = "set_channel ?g (i + 2) (set_channel ?g (i + 1) (set_channel ?g i data))"
    have dvd: "4 dvd i + 4" using "1.prems" by simp
    have len: "j < length ?d" using "1.prems" by (simp add: length_set_channel)
    have step: "brightness_loop bv i data ! j = brightness_loop bv (i + 4) ?d ! j"
      using True by (subst brightness_loop.simps) simp
    have dj: "?d ! j = (if j = i \<or> j = i + 1 \<or> j = i + 2
                        then toUint8Clamp (?g (of_int (data ! j))) else data ! j)"
      using "1.prems" by (simp add: nth_set_channel length_set_channel)
    have ar2: "\<not> (i + 4 \<le> j \<and> (j = i \<or> j = i + 1 \<or> j = i + 2))" by arith
    show ?thesis
      unfolding step "1.IH" [OF True dvd len] dj
      using loop_index_split [OF "1.prems"(1), of j] ar2 by auto
  qed
qed

lemma length_contrast_loop: "length (contrast_loop factor i data) = length data"
  by (induction factor i data rule: contrast_loop.induct)
     (subst contrast_loop.simps, simp add: length_set_channel)

lemma nth_contrast_loop:
  "4 dvd i \<Longrightarrow> j < length data \<Longrightarrow>
   contrast_loop factor i data ! j =
     (if i \<le> j \<and> j mod 4 \<noteq> 3
      then toUint8Clamp (factor * (of_int (data ! j) - 128) + 128)
      else data ! j)"
proof (induction factor i data rule: contrast_loop.induct)
  case (1 factor i data)
  show ?case
  proof (cases "i < length data")
    case False
    with "1.prems" show ?thesis by (subst contrast_loop.simps) simp
  next
    case True
    let ?g = "\<lambda>c. factor * (c - 128) + 128"
    let ?d = "set_channel ?g (i + 2) (set_channel ?g (i + 1) (set_channel ?g i data))"
    have dvd: "4 dvd i + 4" using "1.prems" by simp
    have len: "j < length ?d" using "1.prems" by (simp add: length_set_channel)
    have step: "contrast_loop factor i data ! j = contrast_loop factor (i + 4) ?d ! j"
      using True by (subst contrast_loop.simps) simp
    have dj: "?d ! j = (if j = i \<or> j = i + 1 \<or> j = i + 2
                        then toUint8Clamp (?g (of_int (data ! j))) else data ! j)"
      using "1.prems" by (simp add: nth_set_channel length_set_channel)
    have ar2: "\<not> (i + 4 \<le> j \<and> (j = i \<or> j = i + 1 \<or> j = i + 2))" by arith
    show ?thesis
      unfolding step "1.IH" [OF True dvd len] dj
      using loop_index_split [OF "1.prems"(1), of j] ar2 by auto
  qed
qed

lemma applyEffects_brightness:
  "selectedEffect st = ''brightness'' \<Longrightarrow>
   applyEffects api tempCtxOk st canvas =
     canvas\<lparr>pixels := brightness_loop (brightnessValue st) 0 (pixels canvas)\<rparr>"
  by (simp add: applyEffects_def)

lemma applyEffects_contrast:
  "selectedEffect st = ''contrast'' \<Longrightarrow>
   applyEffects api tempCtxOk st canvas =
     canvas\<lparr>pixels := contrast_loop (contrast_factor (contrastValue st)) 0 (pixels canvas)\<rparr>"
  by (simp add: applyEffects_def)


subsection \<open>Doubles and the brightness of one channel\<close>

lemma round_half_even_near: "\<bar>of_int (round_half_even x) - x\<bar> \<le> 1 / 2"
proof -
  have f: "of_int \<lfloor>x\<rfloor> \<le> x" "x < of_int \<lfloor>x\<rfloor> + 1" by linarith+
  show ?thesis unfolding round_half_even_def Let_def using f by auto
qed

lemma round_half_even_int: "round_half_even (of_int n) = n"
  by (simp add: round_half_even_def)

lemma binade_bounds:
  "2 powi (- int fuel) \<le> x \<Longrightarrow> x < 2 powi (int fuel + 1) \<Longrightarrow>
   2 powi (binade fuel x) \<le> x \<and> x < 2 powi (binade fuel x + 1)"
proof (induction fuel arbitrary: x)
  case 0
  then show ?case by simp
next
  case (Suc fuel)
  show ?case
  proof (cases "2 \<le> x")
    case True
    have "(2::rat) powi (- int fuel) \<le> 2 powi 0"
      by (rule power_int_increasing) simp_all
    then have lo: "2 powi (- int fuel) \<le> x / 2" using True by simp
    have "x < 2 powi (int fuel + 1) * 2"
      using Suc.prems(2) by (simp add: power_int_add)
    then have hi: "x / 2 < 2 powi (int fuel + 1)" by simp
    have ih: "2 powi (binade fuel (x / 2)) \<le> x / 2 \<and> x / 2 < 2 powi (binade fuel (x / 2) + 1)"
      by (rule Suc.IH [OF lo hi])
    show ?thesis using True ih by (simp add: power_int_add)
  next
    case False
    show ?thesis
    proof (cases "x < 1")
      case True
      have "- int (Suc fuel) = - int fuel - 1" by simp
      then have "(2::rat) powi (- int (Suc fuel)) = 2 powi (- int fuel - 1)" by (rule arg_cong)
      also have "\<dots> = 2 powi (- int fuel) / 2"
        by (subst power_int_diff) simp_all
      finally have "(2::rat) powi (- int (Suc fuel)) = 2 powi (- int fuel) / 2" .
      then have lo: "2 powi (- int fuel) \<le> 2 * x" using Suc.prems(1) by simp
      have "(2::rat) powi 1 \<le> 2 powi (int fuel + 1)"
        by (rule power_int_increasing) simp_all
      then have hi: "2 * x < 2 powi (int fuel + 1)" using True by simp
      define e where "e = binade fuel (2 * x)"
      have ih: "2 powi e \<le> 2 * x \<and> 2 * x < 2 powi (e + 1)"
        unfolding e_def by (rule Suc.IH [OF lo hi])
      have p1: "(2::rat) powi (e + 1) = 2 powi e * 2"
        by (simp add: power_int_add)
      have p2: "(2::rat) powi (e - 1) = 2 powi e / 2"
        by (subst power_int_diff) simp_all
      have b: "binade (Suc fuel) x = e - 1"
        using True False by (simp add: e_def)
      have "2 powi (e - 1) \<le> x" "x < 2 powi (e - 1 + 1)"
        using ih unfolding p1 p2 by simp_all
      then show ?thesis unfolding b by simp
    next
      case F2: False
      then show ?thesis using False by simp
    qed
  qed
qed

lemma binary64_0: "binary64 0 = 0"
  by (simp add: binary64_def)

lemma binary64_binade:
  fixes x :: rat
  assumes lo: "1 / 64 \<le> x" and hi: "x < 512"
  obtains e where "2 powi e \<le> x" "x < 2 powi (e + 1)"
    and "binary64 x = of_int (round_half_even (x / 2 powi (e - 52))) * 2 powi (e - 52)"
proof -
  define e where "e = binade 1100 x"
  have pos: "0 < x" using lo by simp
  have "(2::rat) powi (- int 1100) \<le> 2 powi (- 6)"
    by (rule power_int_increasing) simp_all
  then have l: "2 powi (- int 1100) \<le> x" using lo by (simp add: power_int_minus)
  have "(2::rat) powi 9 \<le> 2 powi (int 1100 + 1)"
    by (rule power_int_increasing) simp_all
  then have h: "x < 2 powi (int 1100 + 1)" using hi by simp
  have pe: "2 powi e \<le> x" "x < 2 powi (e + 1)"
    using binade_bounds [OF l h] by (simp_all add: e_def)
  have "- 1022 \<le> e"
  proof (rule ccontr)
    assume "\<not> - 1022 \<le> e"
    then have "e + 1 \<le> - 6" by simp
    then have "(2::rat) powi (e + 1) \<le> 2 powi (- 6)"
      by (rule power_int_increasing) simp
    then show False using pe(2) lo by (simp add: power_int_minus)
  qed
  then have m: "max e (- 1022) = e" by simp
  have "binary64 x = of_int (round_half_even (x / 2 powi (e - 52))) * 2 powi (e - 52)"
    using pos by (simp add: binary64_def Let_def e_def [symmetric] m)
  with pe show thesis by (rule that)
qed

lemma binary64_error:
  fixes x :: rat
  assumes lo: "1 / 64 \<le> x" and hi: "x < 512"
  shows "\<bar>binary64 x - x\<bar> \<le> x / 2 ^ 53"
proof -
  obtain e where e: "2 powi e \<le> x"
    and b: "binary64 x = of_int (round_half_even (x / 2 powi (e - 52))) * 2 powi (e - 52)"
    using binary64_binade [OF lo hi] by blast
  define q :: rat where "q = 2 powi (e - 52)"
  have q0: "0 < q" by (simp add: q_def)
  have qe: "q = 2 powi e / 2 ^ 52"
    unfolding q_def by (subst power_int_diff) simp_all
  define r :: rat where "r = of_int (round_half_even (x / q))"
  have near: "\<bar>r - x / q\<bar> \<le> 1 / 2"
    unfolding r_def by (rule round_half_even_near)
  have "r * q - x = (r - x / q) * q" using q0 by (simp add: left_diff_distrib)
  then have "\<bar>r * q - x\<bar> = \<bar>r - x / q\<bar> * q"
    using q0 by (simp add: abs_mult)
  also have "\<dots> \<le> 1 / 2 * q"
    using near q0 by (rule mult_right_mono [OF _ less_imp_le])
  finally have "\<bar>binary64 x - x\<bar> \<le> q / 2"
    unfolding b q_def [symmetric] r_def [symmetric] by simp
  also have "\<dots> \<le> x / 2 ^ 53"
    unfolding qe using e by (simp add: field_simps)
  finally show ?thesis .
qed

lemma binary64_int:
  assumes "1 \<le> n" "n \<le> 511"
  shows "binary64 (of_int n) = of_int n"
proof -
  have lo: "1 / 64 \<le> (of_int n :: rat)" using assms by simp
  have hi: "(of_int n :: rat) < 512" using assms by simp
  obtain e where e: "2 powi e \<le> (of_int n :: rat)"
    and b: "binary64 (of_int n) =
              of_int (round_half_even (of_int n / 2 powi (e - 52))) * 2 powi (e - 52)"
    using binary64_binade [OF lo hi] by blast
  have "(2::rat) powi e < 2 powi 9" using e hi by simp
  then have e9: "e < 9" by (rule power_int_le_imp_less_exp [rotated]) simp_all
  define k where "k = nat (52 - e)"
  have q: "(2::rat) powi (e - 52) = 1 / 2 ^ k"
  proof -
    have "e - 52 = - int k" using e9 by (simp add: k_def)
    then show ?thesis by (simp add: power_int_minus_divide)
  qed
  have "(of_int n :: rat) / 2 powi (e - 52) = of_int (n * 2 ^ k)"
    unfolding q by simp
  then have "round_half_even (of_int n / 2 powi (e - 52)) = n * 2 ^ k"
    by (simp only: round_half_even_int)
  then show ?thesis unfolding b q by simp
qed

lemma toUint8Clamp_fiftieths:
  fixes y :: rat
  assumes n: "0 \<le> n" and close: "\<bar>y - of_int n / 50\<bar> \<le> 1 / 1000"
  shows "\<bar>(of_int (toUint8Clamp (min 255 y)) :: rat) - min 255 (of_int n / 50)\<bar> \<le> 1 / 2"
proof -
  define k where "k = toUint8Clamp (min 255 y)"
  define m where "m = min 12750 n"
  have x': "min 255 (of_int n / 50) = (of_int m :: rat) / 50"
    by (simp add: m_def min_def)
  have m0: "0 \<le> m" "m \<le> 12750" using n by (simp_all add: m_def)
  have "\<bar>of_int k - min (max (min 255 y) 0) 255\<bar> \<le> (1 / 2 :: rat)"
    unfolding k_def by (rule toUint8Clamp_near)
  moreover have "\<bar>min (max (min 255 y) 0) 255 - of_int m / 50\<bar> \<le> 1 / 1000"
    using close m0 n unfolding m_def by (auto simp: min_def max_def abs_if split: if_splits)
  ultimately have "\<bar>(of_int k :: rat) - of_int m / 50\<bar> \<le> 1 / 2 + 1 / 1000"
    by linarith
  then have "\<bar>(of_int (50 * k - m) :: rat)\<bar> \<le> 25 + 1 / 20"
    by (simp add: abs_if field_simps split: if_splits)
  then have "(of_int \<bar>50 * k - m\<bar> :: rat) < of_int 26"
    by simp
  then have "\<bar>50 * k - m\<bar> < 26" by (simp only: of_int_less_iff)
  then have "\<bar>50 * k - m\<bar> \<le> 25" by simp
  then have "(of_int \<bar>50 * k - m\<bar> :: rat) \<le> of_int 25" by (simp only: of_int_le_iff)
  then have "\<bar>(of_int k :: rat) - of_int m / 50\<bar> \<le> 1 / 2"
    by (simp add: abs_if field_simps split: if_splits)
  then show ?thesis unfolding x' k_def .
qed

lemma double_div_fifty:
  assumes "1 \<le> v" "v \<le> 100"
  shows "\<bar>double_div (of_int v) 50 - of_int v / 50\<bar> \<le> 2 / 2 ^ 53"
proof -
  have lo: "1 / 64 \<le> (of_int v :: rat) / 50" using assms by simp
  have hi: "(of_int v :: rat) / 50 < 512" using assms by simp
  have "\<bar>binary64 (of_int v / 50) - of_int v / 50\<bar> \<le> (of_int v / 50) / 2 ^ 53"
    by (rule binary64_error [OF lo hi])
  also have "\<dots> \<le> 2 / 2 ^ 53" using assms by simp
  finally show ?thesis by (simp add: double_div_def)
qed

lemma brightness_channel_close:
  assumes c: "0 \<le> c" "c \<le> 255" and v: "0 \<le> v" "v \<le> 100"
  shows "\<bar>double_mul (of_int c) (double_div (of_int v) 50) - of_int (c * v) / 50\<bar> \<le> 1 / 1000"
proof (cases "c = 0 \<or> v = 0")
  case True
  then show ?thesis by (auto simp: double_mul_def double_div_def binary64_0)
next
  case False
  then have c1: "1 \<le> c" and v1: "1 \<le> v" using c v by simp_all
  define a0 :: rat where "a0 = of_int v / 50"
  define d where "d = double_div (of_int v) 50"
  define cr :: rat where "cr = of_int c"
  have cr: "1 \<le> cr" "cr \<le> 255" using c1 c by (simp_all add: cr_def)
  have a0: "1 / 50 \<le> a0" "a0 \<le> 2" using v1 v by (simp_all add: a0_def)
  have da: "\<bar>d - a0\<bar> \<le> 2 / 2 ^ 53"
    unfolding d_def a0_def by (rule double_div_fifty [OF v1 v(2)])
  have da': "\<bar>d - a0\<bar> \<le> 1 / 100000"
    by (rule order_trans [OF da]) simp
  have d_lo: "1 / 64 \<le> d" and d_hi: "d \<le> 2 + 1 / 1000" using da' a0 by linarith+
  have "1 * (1 / 64) \<le> cr * d" using cr d_lo by (intro mult_mono) simp_all
  then have p_lo: "1 / 64 \<le> cr * d" by simp
  have "cr * d \<le> 255 * (2 + 1 / 1000)" using cr d_hi d_lo by (intro mult_mono) simp_all
  then have p_hi: "cr * d < 512" by simp
  have "\<bar>binary64 (cr * d) - cr * d\<bar> \<le> (cr * d) / 2 ^ 53"
    by (rule binary64_error [OF p_lo p_hi])
  then have e1: "\<bar>binary64 (cr * d) - cr * d\<bar> \<le> 512 / 2 ^ 53"
    using p_hi by simp
  have "\<bar>cr * d - cr * a0\<bar> = cr * \<bar>d - a0\<bar>"
    using cr by (simp add: right_diff_distrib [symmetric] abs_mult)
  also have "\<dots> \<le> 255 * (2 / 2 ^ 53)" using cr da by (intro mult_mono) simp_all
  finally have e2: "\<bar>cr * d - cr * a0\<bar> \<le> 510 / 2 ^ 53" by simp
  have e1': "\<bar>binary64 (cr * d) - cr * d\<bar> \<le> 1 / 2000"
    by (rule order_trans [OF e1]) simp
  have e2': "\<bar>cr * d - cr * a0\<bar> \<le> 1 / 2000"
    by (rule order_trans [OF e2]) simp
  have "\<bar>binary64 (cr * d) - cr * a0\<bar> \<le> 1 / 1000" using e1' e2' by linarith
  moreover have "cr * a0 = of_int (c * v) / 50" by (simp add: cr_def a0_def)
  ultimately show ?thesis
    by (simp add: double_mul_def d_def [symmetric] cr_def [symmetric])
qed

lemma brightness_channel:
  assumes c: "0 \<le> c" "c \<le> 255" and v: "0 \<le> v" "v \<le> 100"
  defines "y \<equiv> min 255 (double_mul (of_int c) (double_div (of_int v) 50))"
  shows "\<bar>(of_int (toUint8Clamp y) :: rat) - min 255 (of_int c * (of_int v / 50))\<bar> \<le> 1 / 2"
    and "v = 50 \<Longrightarrow> toUint8Clamp y = c"
    and "v = 100 \<Longrightarrow> toUint8Clamp y = min 255 (2 * c)"
    and "v = 0 \<Longrightarrow> toUint8Clamp y = 0"
proof -
  have n: "0 \<le> c * v" using c v by simp
  have "\<bar>(of_int (toUint8Clamp y) :: rat) - min 255 (of_int (c * v) / 50)\<bar> \<le> 1 / 2"
    unfolding y_def
    by (rule toUint8Clamp_fiftieths [OF n brightness_channel_close [OF c v]])
  then show "\<bar>(of_int (toUint8Clamp y) :: rat) - min 255 (of_int c * (of_int v / 50))\<bar> \<le> 1 / 2"
    by simp
next
  assume v50: "v = 50"
  have d: "double_div (of_int v) 50 = 1"
    using binary64_int [of 1] by (simp add: double_div_def v50)
  have p: "double_mul (of_int c) 1 = of_int c"
  proof (cases "c = 0")
    case True then show ?thesis by (simp add: double_mul_def binary64_0)
  next
    case False
    then show ?thesis using c binary64_int [of c] by (simp add: double_mul_def)
  qed
  have "y = of_int c" using c by (simp add: y_def d p min_def)
  then show "toUint8Clamp y = c" using c toUint8Clamp_int [of c] by simp
next
  assume v100: "v = 100"
  have d: "double_div (of_int v) 50 = 2"
    using binary64_int [of 2] by (simp add: double_div_def v100)
  have p: "double_mul (of_int c) 2 = of_int (2 * c)"
  proof (cases "c = 0")
    case True then show ?thesis by (simp add: double_mul_def binary64_0)
  next
    case False
    then show ?thesis using c binary64_int [of "2 * c"] by (simp add: double_mul_def mult.commute)
  qed
  have "y = of_int (min 255 (2 * c))" by (simp add: y_def d p min_def)
  then show "toUint8Clamp y = min 255 (2 * c)"
    using c toUint8Clamp_int [of "min 255 (2 * c)"] by simp
next
  assume v0: "v = 0"
  have "y = of_int 0"
    by (simp add: y_def v0 double_div_def double_mul_def binary64_0)
  then show "toUint8Clamp y = 0" using toUint8Clamp_int [of 0] by simp
qed

subsection \<open>Effect kinds keep their own intensity\<close>

text \<open>
  Claim C9. Changing the selected effect's kind leaves the stored intensity of every effect
  kind unchanged, a slider change touches only the intensity of the kind that is selected,
  and so switching from one kind to another, moving the slider there, and switching back
  shows the first kind's prior intensity again.
\<close>

theorem effect_kind_switch_keeps_intensities:
  "blurValue (setSelectedEffect k st) = blurValue st
   \<and> brightnessValue (setSelectedEffect k st) = brightnessValue st
   \<and> contrastValue (setSelectedEffect k st) = contrastValue st
   \<and> (k \<noteq> selectedEffect st \<longrightarrow>
        getCurrentEffectValue
          (setSelectedEffect (selectedEffect st)
             (handleEffectValueChange v (setSelectedEffect k st)))
        = getCurrentEffectValue st)"
  by (simp add: setSelectedEffect_def handleEffectValueChange_def getCurrentEffectValue_def)

theorem effect_kind_switch_keeps_intensities_witness:
  "''contrast'' \<noteq> selectedEffect (handleEffectValueChange 80 (setSelectedEffect ''brightness'' initialEditState))
   \<and> getCurrentEffectValue
        (setSelectedEffect ''brightness''
           (handleEffectValueChange 20
              (setSelectedEffect ''contrast''
                 (handleEffectValueChange 80 (setSelectedEffect ''brightness'' initialEditState)))))
      = 80
   \<and> contrastValue
        (setSelectedEffect ''brightness''
           (handleEffectValueChange 20
              (setSelectedEffect ''contrast''
                 (handleEffectValueChange 80 (setSelectedEffect ''brightness'' initialEditState)))))
      = 20"
  using effect_kind_switch_keeps_intensities
    [of "''contrast''" "handleEffectValueChange 80 (setSelectedEffect ''brightness'' initialEditState)" 20]
  by (simp add: setSelectedEffect_def handleEffectValueChange_def getCurrentEffectValue_def
      initialEditState_def)


subsection \<open>Brightness\<close>

text \<open>
  Claim C6. With the brightness effect selected, an intensity in \<open>[0, 100]\<close> and a channel
  value \<open>c\<close> in \<open>[0, 255]\<close>: the data keeps its length, an alpha channel (index \<open>3\<close>
  modulo \<open>4\<close>) keeps its value, and a colour channel becomes the product
  \<open>c * (intensity / 50)\<close>, computed in doubles, cut off at \<open>255\<close> and rounded to an integer.
  That integer lies in \<open>[0, 255]\<close> and is a nearest integer to the exact value of
  \<open>c * (intensity / 50)\<close> cut off at \<open>255\<close> (at most one half away); intensity \<open>50\<close> leaves
  the channel unchanged, \<open>100\<close> doubles it (up to \<open>255\<close>) and \<open>0\<close> gives black.
\<close>

theorem brightness_effect:
  assumes eff: "selectedEffect st = ''brightness''"
    and bv: "0 \<le> brightnessValue st" "brightnessValue st \<le> 100"
    and j: "j < length (pixels canvas)"
    and c: "0 \<le> pixels canvas ! j" "pixels canvas ! j \<le> 255"
  shows
    "let out = pixels (applyEffects api tempCtxOk st canvas);
         c = pixels canvas ! j;
         x = of_int c * (of_int (brightnessValue st) / 50)
     in length out = length (pixels canvas)
        \<and> (if j mod 4 = 3 then out ! j = c
           else out ! j =
                  toUint8Clamp
                    (min 255 (double_mul (of_int c) (double_div (of_int (brightnessValue st)) 50)))
                \<and> 0 \<le> out ! j \<and> out ! j \<le> 255
                \<and> \<bar>(of_int (out ! j) :: rat) - min 255 x\<bar> \<le> 1 / 2
                \<and> (brightnessValue st = 50 \<longrightarrow> out ! j = c)
                \<and> (brightnessValue st = 100 \<longrightarrow> out ! j = min 255 (2 * c))
                \<and> (brightnessValue st = 0 \<longrightarrow> out ! j = 0))"
proof -
  define cj where "cj = pixels canvas ! j"
  define v where "v = brightnessValue st"
  define y :: rat where "y = min 255 (double_mul (of_int cj) (double_div (of_int v) 50))"
  define out where "out = pixels (applyEffects api tempCtxOk st canvas)"
  have cj: "0 \<le> cj" "cj \<le> 255" using c by (simp_all add: cj_def)
  have v: "0 \<le> v" "v \<le> 100" using bv by (simp_all add: v_def)
  have out: "out = brightness_loop v 0 (pixels canvas)"
    by (simp add: out_def v_def applyEffects_brightness [OF eff])
  have len: "length out = length (pixels canvas)"
    by (simp add: out length_brightness_loop)
  have nth: "out ! j = (if j mod 4 \<noteq> 3 then toUint8Clamp y else cj)"
    unfolding out y_def cj_def using nth_brightness_loop [of 0 j "pixels canvas" v] j
    by simp
  have near: "\<bar>(of_int (toUint8Clamp y) :: rat) - min 255 (of_int cj * (of_int v / 50))\<bar> \<le> 1 / 2"
    unfolding y_def by (rule brightness_channel(1) [OF cj v])
  have v50: "v = 50 \<Longrightarrow> toUint8Clamp y = cj"
    unfolding y_def by (rule brightness_channel(2) [OF cj v])
  have v100: "v = 100 \<Longrightarrow> toUint8Clamp y = min 255 (2 * cj)"
    unfolding y_def by (rule brightness_channel(3) [OF cj v])
  have v0: "v = 0 \<Longrightarrow> toUint8Clamp y = 0"
    unfolding y_def by (rule brightness_channel(4) [OF cj v])
  show ?thesis
    unfolding Let_def out_def [symmetric] cj_def [symmetric] v_def [symmetric] y_def [symmetric]
    using len nth near v50 v100 v0 toUint8Clamp_range [of y] by auto
qed

theorem brightness_effect_witness:
  "selectedEffect (initialEditState\<lparr>selectedEffect := ''brightness'', brightnessValue := 7\<rparr>)
     = ''brightness''
   \<and> (0::nat) < length (pixels \<lparr>width = 1, height = 2, pixels = [75, 128, 250, 77, 1, 2, 3, 4]\<rparr>)
   \<and> pixels (applyEffects sample_api True
         (initialEditState\<lparr>selectedEffect := ''brightness'', brightnessValue := 7\<rparr>)
         \<lparr>width = 1, height = 2, pixels = [75, 128, 250, 77, 1, 2, 3, 4]\<rparr>) ! 0 = 11"
proof -
  have stored: "toUint8Clamp (min 255 (double_mul 75 (double_div 7 50))) = 11"
    by code_simp
  show ?thesis
    using brightness_effect
      [of "initialEditState\<lparr>selectedEffect := ''brightness'', brightnessValue := 7\<rparr>" 0
          "\<lparr>width = 1, height = 2, pixels = [75, 128, 250, 77, 1, 2, 3, 4]\<rparr>" sample_api True]
      stored
    by (simp add: initialEditState_def Let_def)
qed

subsection \<open>Contrast\<close>

text \<open>
  Claim C2. With the contrast effect selected, an intensity in \<open>[0, 100]\<close> and a channel
  value \<open>c\<close> in \<open>[0, 255]\<close>: the data keeps its length, an alpha channel keeps its value,
  and a colour channel becomes \<open>factor * (c - 128) + 128\<close> with
  \<open>factor = 259 * (intensity + 255) / (255 * (259 - intensity))\<close>, clamped to \<open>[0, 255]\<close> by
  the store into the clamped array and rounded to the nearest integer: the result lies in
  \<open>[0, 255]\<close>, within one half of the clamped exact value, and intensity \<open>0\<close> leaves the
  channel unchanged.
\<close>

theorem contrast_effect:
  assumes eff: "selectedEffect st = ''contrast''"
    and cv: "0 \<le> contrastValue st" "contrastValue st \<le> 100"
    and j: "j < length (pixels canvas)"
    and c: "0 \<le> pixels canvas ! j" "pixels canvas ! j \<le> 255"
  shows
    "let out = pixels (applyEffects api tempCtxOk st canvas);
         c = pixels canvas ! j;
         factor = (259 * (of_int (contrastValue st) + 255)) / (255 * (259 - of_int (contrastValue st)));
         x = factor * (of_int c - 128) + 128
     in length out = length (pixels canvas)
        \<and> (if j mod 4 = 3 then out ! j = c
           else out ! j = toUint8Clamp x
                \<and> 0 \<le> out ! j \<and> out ! j \<le> 255
                \<and> \<bar>of_int (out ! j) - min (max x 0) 255\<bar> \<le> 1 / 2
                \<and> (contrastValue st = 0 \<longrightarrow> out ! j = c))"
proof -
  define cj where "cj = pixels canvas ! j"
  define factor :: rat where
    "factor = (259 * (of_int (contrastValue st) + 255)) / (255 * (259 - of_int (contrastValue st)))"
  define x :: rat where "x = factor * (of_int cj - 128) + 128"
  define out where "out = pixels (applyEffects api tempCtxOk st canvas)"
  have out: "out = contrast_loop factor 0 (pixels canvas)"
    by (simp add: out_def applyEffects_contrast [OF eff] contrast_factor_def factor_def)
  have len: "length out = length (pixels canvas)"
    by (simp add: out length_contrast_loop)
  have nth: "out ! j = (if j mod 4 \<noteq> 3 then toUint8Clamp x else cj)"
    unfolding out x_def cj_def using nth_contrast_loop [of 0 j "pixels canvas" factor] j
    by simp
  have v0: "contrastValue st = 0 \<Longrightarrow> toUint8Clamp x = cj"
  proof -
    assume "contrastValue st = 0"
    then have "factor = 1" by (simp add: factor_def)
    then have "x = of_int cj" by (simp add: x_def)
    then show ?thesis using c toUint8Clamp_int [of cj] by (simp add: cj_def)
  qed
  show ?thesis
    unfolding Let_def out_def [symmetric] cj_def [symmetric] factor_def [symmetric]
      x_def [symmetric]
    using len nth v0 toUint8Clamp_near [of x] toUint8Clamp_range [of x] by auto
qed

theorem contrast_effect_witness:
  "selectedEffect (initialEditState\<lparr>selectedEffect := ''contrast'', contrastValue := 100\<rparr>)
     = ''contrast''
   \<and> (0::nat) < length (pixels \<lparr>width = 1, height = 2, pixels = [10, 128, 250, 77, 1, 2, 3, 4]\<rparr>)
   \<and> pixels (applyEffects sample_api True
         (initialEditState\<lparr>selectedEffect := ''contrast'', contrastValue := 100\<rparr>)
         \<lparr>width = 1, height = 2, pixels = [10, 128, 250, 77, 1, 2, 3, 4]\<rparr>) ! 0 = 0"
  using contrast_effect
    [of "initialEditState\<lparr>selectedEffect := ''contrast'', contrastValue := 100\<rparr>" 0
        "\<lparr>width = 1, height = 2, pixels = [10, 128, 250, 77, 1, 2, 3, 4]\<rparr>" sample_api True]
  by (simp add: initialEditState_def Let_def toUint8Clamp_def)

subsection \<open>The order of a render\<close>

text \<open>
  Claim C5. When the processed image loads and a context is available, a render paints the
  background first, on the blank surface of the image's dimensions: a fill of the whole
  surface for a solid colour, or the fill image drawn into the rectangle
  \<open>(0, 0, width, height)\<close> of the surface, so stretched to the output dimensions. The
  processed image is drawn on top at \<open>(0, 0)\<close>, unscaled and unfiltered, and the selected
  effect is applied to that composite; the export is the data URL of the outcome. For any
  composite, no effect leaves it as it is, brightness and contrast run their loops over the
  composite's data, and blur redraws the composite through the blur filter.
\<close>

theorem render_order:
  assumes "selected = Some im" and "processedFile im = Some processed" and "ctxOk"
    and "loadImage processed = Some img"
  shows
    "(bgType st = ''color'' \<longrightarrow>
        applyChanges api loadImage ctxOk tempCtxOk selected st =
          Settled (st\<lparr>exportUrl := toDataURL api ''image/png''
            (applyEffects api tempCtxOk st
               (drawImage api FilterNone img 0 0
                  (fillRect api (bgColor st) 0 0 (width img) (height img)
                     (blank (width img) (height img)))))\<rparr>))
     \<and> (bgType st = ''image'' \<and> customBgImage st = Some bgFile \<and> loadImage bgFile = Some bgImg \<longrightarrow>
        applyChanges api loadImage ctxOk tempCtxOk selected st =
          Settled (st\<lparr>exportUrl := toDataURL api ''image/png''
            (applyEffects api tempCtxOk st
               (drawImage api FilterNone img 0 0
                  (drawImageScaled api FilterNone bgImg 0 0 (width img) (height img)
                     (blank (width img) (height img)))))\<rparr>))
     \<and> width (blank (width img) (height img)) = width img
     \<and> height (blank (width img) (height img)) = height img
     \<and> (selectedEffect st = ''none'' \<longrightarrow> applyEffects api tempCtxOk st composite = composite)
     \<and> (selectedEffect st = ''blur'' \<and> tempCtxOk \<longrightarrow>
          applyEffects api tempCtxOk st composite =
            drawImage api (FilterBlurPx (of_int (blurValue st) / 10))
              (drawImage api FilterNone composite 0 0
                 (blank (width composite) (height composite)))
              0 0 (clearRect api 0 0 (width composite) (height composite) composite))
     \<and> (selectedEffect st = ''brightness'' \<longrightarrow>
          applyEffects api tempCtxOk st composite =
            composite\<lparr>pixels := brightness_loop (brightnessValue st) 0 (pixels composite)\<rparr>)
     \<and> (selectedEffect st = ''contrast'' \<longrightarrow>
          applyEffects api tempCtxOk st composite =
            composite\<lparr>pixels :=
              contrast_loop (contrast_factor (contrastValue st)) 0 (pixels composite)\<rparr>)"
  using assms
  by (simp add: applyChanges_def paintBackground_def applyEffects_def blank_def)

theorem render_order_witness:
  "processedFile \<lparr>image_id = 1, inputFile = ''photo.jpg'', processedFile = Some ''cutout.png''\<rparr>
     = Some ''cutout.png''
   \<and> bgType (initialEditState\<lparr>selectedEffect := ''brightness'', brightnessValue := 100\<rparr>) = ''color''
   \<and> applyChanges sample_api
        (\<lambda>f. if f = ''cutout.png'' then Some \<lparr>width = 1, height = 1, pixels = [9, 0, 7, 255]\<rparr>
             else None)
        True True
        (Some \<lparr>image_id = 1, inputFile = ''photo.jpg'', processedFile = Some ''cutout.png''\<rparr>)
        (initialEditState\<lparr>selectedEffect := ''brightness'', brightnessValue := 100\<rparr>)
      = Settled (initialEditState\<lparr>selectedEffect := ''brightness'', brightnessValue := 100,
          exportUrl := toDataURL sample_api ''image/png''
            \<lparr>width = 1, height = 1, pixels = [18, 255, 14, 255]\<rparr>\<rparr>)"
proof -
  let ?st = "initialEditState\<lparr>selectedEffect := ''brightness'', brightnessValue := 100\<rparr>"
  let ?fg = "\<lparr>width = 1, height = 1, pixels = [9, 0, 7, 255]\<rparr>"
  let ?rec = "\<lparr>image_id = 1, inputFile = ''photo.jpg'', processedFile = Some ''cutout.png''\<rparr>"
  let ?load = "\<lambda>f. if f = ''cutout.png'' then Some ?fg else None"
  have run: "applyEffects sample_api True ?st
               (drawImage sample_api FilterNone ?fg 0 0
                  (fillRect sample_api (bgColor ?st) 0 0 (width ?fg) (height ?fg)
                     (blank (width ?fg) (height ?fg))))
             = \<lparr>width = 1, height = 1, pixels = [18, 255, 14, 255]\<rparr>"
    by code_simp
  have color: "bgType ?st = ''color''"
    by (simp add: initialEditState_def)
  have "applyChanges sample_api ?load True True (Some ?rec) ?st =
          Settled (?st\<lparr>exportUrl := toDataURL sample_api ''image/png''
            (applyEffects sample_api True ?st
               (drawImage sample_api FilterNone ?fg 0 0
                  (fillRect sample_api (bgColor ?st) 0 0 (width ?fg) (height ?fg)
                     (blank (width ?fg) (height ?fg)))))\<rparr>)"
    using render_order [of "Some ?rec" ?rec "''cutout.png''" True ?load ?fg ?st sample_api True]
      color
    by simp
  then show ?thesis
    unfolding run using color by simp
qed

subsection \<open>A background image that fails to decode\<close>

text \<open>
  Claim C3 says that a render whose background image fails to decode still completes, with
  a blank background. It does not: with the image background selected, a fill image whose
  \<^verbatim>\<open>load\<close> event never fires leaves \<open>applyChanges\<close> pending, and no export URL is set.
\<close>

theorem background_decode_failure_counterexample:
  "applyChanges sample_api
     (\<lambda>f. if f = ''cutout.png'' then Some \<lparr>width = 1, height = 1, pixels = [9, 8, 7, 255]\<rparr>
          else None)
     True True
     (Some \<lparr>image_id = 1, inputFile = ''photo.jpg'', processedFile = Some ''cutout.png''\<rparr>)
     (initialEditState\<lparr>bgType := ''image'', customBgImage := Some ''broken.jpg''\<rparr>)
   = Pending"
  by (simp add: applyChanges_def paintBackground_def initialEditState_def)

text \<open>
  Claim C3, amended. When the processed image loads, a context is available and an image
  background with a fill image is selected, the render stays pending exactly when the fill
  image fails to decode: a decode failure is never turned into a blank background.
\<close>

theorem background_decode_failure:
  assumes "selected = Some im" and "processedFile im = Some processed" and "ctxOk"
    and "loadImage processed = Some img"
    and "bgType st = ''image''" and "customBgImage st = Some bgFile"
  shows "(applyChanges api loadImage ctxOk tempCtxOk selected st = Pending)
         = (loadImage bgFile = None)"
  using assms by (simp add: applyChanges_def paintBackground_def split: option.splits)

theorem background_decode_failure_witness:
  "processedFile \<lparr>image_id = 1, inputFile = ''photo.jpg'', processedFile = Some ''cutout.png''\<rparr>
     = Some ''cutout.png''
   \<and> (\<lambda>f. if f = ''cutout.png'' then Some \<lparr>width = 1, height = 1, pixels = [9, 8, 7, 255]\<rparr>
            else None) ''broken.jpg'' = None
   \<and> applyChanges sample_api
        (\<lambda>f. if f = ''cutout.png'' then Some \<lparr>width = 1, height = 1, pixels = [9, 8, 7, 255]\<rparr>
             else None)
        True True
        (Some \<lparr>image_id = 1, inputFile = ''photo.jpg'', processedFile = Some ''cutout.png''\<rparr>)
        (initialEditState\<lparr>bgType := ''image'', customBgImage := Some ''broken.jpg''\<rparr>)
      = Pending"
  using background_decode_failure
    [of "Some \<lparr>image_id = 1, inputFile = ''photo.jpg'', processedFile = Some ''cutout.png''\<rparr>"
        "\<lparr>image_id = 1, inputFile = ''photo.jpg'', processedFile = Some ''cutout.png''\<rparr>"
        "''cutout.png''" True
        "\<lambda>f. if f = ''cutout.png'' then Some \<lparr>width = 1, height = 1, pixels = [9, 8, 7, 255]\<rparr>
             else None"
        "\<lparr>width = 1, height = 1, pixels = [9, 8, 7, 255]\<rparr>"
        "initialEditState\<lparr>bgType := ''image'', customBgImage := Some ''broken.jpg''\<rparr>"
        "''broken.jpg''" sample_api True]
  by (simp add: initialEditState_def)

subsection \<open>An image background without a fill image\<close>

text \<open>
  Claim C10. With the image background selected and no fill image chosen, the background
  step leaves the surface as it is, and the render completes: the export is the data URL
  of the selected effect applied to the processed image drawn on the blank surface, whose
  data is all zero (transparent black); with no effect selected it is the data URL of
  that drawing itself.
\<close>

theorem image_fill_without_image:
  assumes "selected = Some im" and "processedFile im = Some processed" and "ctxOk"
    and "loadImage processed = Some img"
    and "bgType st = ''image''" and "customBgImage st = None"
  shows
    "paintBackground api loadImage st canvas = Settled canvas
     \<and> applyChanges api loadImage ctxOk tempCtxOk selected st =
          Settled (st\<lparr>exportUrl := toDataURL api ''image/png''
            (applyEffects api tempCtxOk st
               (drawImage api FilterNone img 0 0 (blank (width img) (height img))))\<rparr>)
     \<and> pixels (blank (width img) (height img)) = replicate (4 * width img * height img) 0
     \<and> (selectedEffect st = ''none'' \<longrightarrow>
          applyChanges api loadImage ctxOk tempCtxOk selected st =
            Settled (st\<lparr>exportUrl := toDataURL api ''image/png''
              (drawImage api FilterNone img 0 0 (blank (width img) (height img)))\<rparr>))"
  using assms
  by (simp add: applyChanges_def paintBackground_def applyEffects_def blank_def)

theorem image_fill_without_image_witness:
  "processedFile \<lparr>image_id = 1, inputFile = ''photo.jpg'', processedFile = Some ''cutout.png''\<rparr>
     = Some ''cutout.png''
   \<and> customBgImage (initialEditState\<lparr>bgType := ''image''\<rparr>) = None
   \<and> applyChanges sample_api
        (\<lambda>f. if f = ''cutout.png'' then Some \<lparr>width = 1, height = 1, pixels = [9, 0, 7, 255]\<rparr>
             else None)
        True True
        (Some \<lparr>image_id = 1, inputFile = ''photo.jpg'', processedFile = Some ''cutout.png''\<rparr>)
        (initialEditState\<lparr>bgType := ''image''\<rparr>)
      = Settled (initialEditState\<lparr>bgType := ''image'',
          exportUrl := toDataURL sample_api ''image/png''
            \<lparr>width = 1, height = 1, pixels = [9, 0, 7, 255]\<rparr>\<rparr>)"
proof -
  let ?st = "initialEditState\<lparr>bgType := ''image''\<rparr>"
  let ?fg = "\<lparr>width = 1, height = 1, pixels = [9, 0, 7, 255]\<rparr>"
  let ?rec = "\<lparr>image_id = 1, inputFile = ''photo.jpg'', processedFile = Some ''cutout.png''\<rparr>"
  let ?load = "\<lambda>f. if f = ''cutout.png'' then Some ?fg else None"
  have run: "applyEffects sample_api True ?st
               (drawImage sample_api FilterNone ?fg 0 0 (blank (width ?fg) (height ?fg)))
             = \<lparr>width = 1, height = 1, pixels = [9, 0, 7, 255]\<rparr>"
    by code_simp
  have h1: "Some ?rec = Some ?rec" by simp
  have h2: "processedFile ?rec = Some ''cutout.png''" by simp
  have h4: "?load ''cutout.png'' = Some ?fg" by simp
  have h5: "bgType ?st = ''image''" by simp
  have h6: "customBgImage ?st = None" by (simp add: initialEditState_def)
  note r = image_fill_without_image
      [where selected = "Some ?rec" and im = ?rec and processed = "''cutout.png''"
         and ctxOk = True and loadImage = ?load and img = ?fg and st = ?st
         and api = sample_api and tempCtxOk = True,
       OF h1 h2 TrueI h4 h5 h6, THEN conjunct2, THEN conjunct1]
  show ?thesis
    unfolding r run using h2 h6 by simp
qed

subsection \<open>Switching the model\<close>

text \<open>
  Claim C1 says that a failed switch to the quality model always ends on the compatibility
  model without an error. It does not: when \<^verbatim>\<open>initializeModel\<close> resolves with \<^verbatim>\<open>false\<close>, the
  handler sets an error message.
\<close>

theorem model_switch_failure_counterexample:
  "errorMessage
     (handleModelChange (\<lambda>m. Resolved False) ''Xenova/modnet''
        (initialAppState\<lparr>isLoading := False, isWebGPU := True\<rparr>))
   = Some ''Failed to initialize new model''"
  by (simp add: handleModelChange_def initialAppState_def)

lemma not_falling_back: "\<not> str_includes ''Failed to initialize new model'' ''Falling back''"
  by simp

text \<open>
  Claim C1, amended. The fallback is taken exactly on the signal from
  \<^verbatim>\<open>initializeModel\<close>: when it rejects with an \<^verbatim>\<open>Error\<close> whose message contains
  \<^verbatim>\<open>Falling back\<close>, the handler ends with the current model \<^verbatim>\<open>briaai/RMBG-1.4\<close>, no error
  message and the switching flag cleared. Every other failure (a \<^verbatim>\<open>false\<close> result, another
  \<^verbatim>\<open>Error\<close>, another thrown value) leaves the current model as it was and sets an error
  message; the switching flag is cleared as well.
\<close>

theorem model_switch_failure:
  "(initializeModel (Some newModel) = Rejected (ErrorObj message)
      \<and> str_includes message ''Falling back''
    \<longrightarrow> currentModel (handleModelChange initializeModel newModel s) = ''briaai/RMBG-1.4''
        \<and> errorMessage (handleModelChange initializeModel newModel s) = None
        \<and> \<not> isModelSwitching (handleModelChange initializeModel newModel s))
   \<and> (initializeModel (Some newModel) = Resolved False
    \<longrightarrow> currentModel (handleModelChange initializeModel newModel s) = currentModel s
        \<and> errorMessage (handleModelChange initializeModel newModel s)
            = Some ''Failed to initialize new model''
        \<and> \<not> isModelSwitching (handleModelChange initializeModel newModel s))
   \<and> (initializeModel (Some newModel) = Rejected (ErrorObj message)
      \<and> \<not> str_includes message ''Falling back''
    \<longrightarrow> currentModel (handleModelChange initializeModel newModel s) = currentModel s
        \<and> errorMessage (handleModelChange initializeModel newModel s) = Some message
        \<and> \<not> isModelSwitching (handleModelChange initializeModel newModel s))
   \<and> (initializeModel (Some newModel) = Rejected OtherValue
    \<longrightarrow> currentModel (handleModelChange initializeModel newModel s) = currentModel s
        \<and> errorMessage (handleModelChange initializeModel newModel s)
            = Some ''Failed to switch models''
        \<and> \<not> isModelSwitching (handleModelChange initializeModel newModel s))"
  using not_falling_back by (simp add: handleModelChange_def)

theorem model_switch_failure_witness:
  "str_includes ''WebGPU is not available. Falling back to the standard model'' ''Falling back''
   \<and> currentModel
        (handleModelChange
           (\<lambda>m. Rejected (ErrorObj ''WebGPU is not available. Falling back to the standard model''))
           ''Xenova/modnet'' (initialAppState\<lparr>isLoading := False, isWebGPU := True\<rparr>))
      = ''briaai/RMBG-1.4''
   \<and> errorMessage
        (handleModelChange
           (\<lambda>m. Rejected (ErrorObj ''WebGPU is not available. Falling back to the standard model''))
           ''Xenova/modnet'' (initialAppState\<lparr>isLoading := False, isWebGPU := True\<rparr>))
      = None"
  using model_switch_failure
    [of "\<lambda>m. Rejected (ErrorObj ''WebGPU is not available. Falling back to the standard model'')"
        "''Xenova/modnet''" "''WebGPU is not available. Falling back to the standard model''"
        "initialAppState\<lparr>isLoading := False, isWebGPU := True\<rparr>"]
  by simp

subsection \<open>One drop: the new records and the processing loop\<close>

lemma length_newImages: "length (newImages now fs) = length fs"
  by (simp add: newImages_def)

lemma nth_newImages:
  "j < length fs \<Longrightarrow>
   newImages now fs ! j = \<lparr>image_id = now j + int j, inputFile = fs ! j, processedFile = None\<rparr>"
  by (simp add: newImages_def nth_enumerate_eq)

lemma ids_newImages:
  "map image_id (newImages now fs) = map (\<lambda>k. now k + int k) [0..<length fs]"
  by (rule nth_equalityI) (simp_all add: length_newImages nth_newImages)

lemma sorted_ids_newImages:
  assumes "mono now"
  shows "sorted_wrt (<) (map image_id (newImages now fs))"
proof -
  have "now a + int a < now b + int b" if "a < b" for a b :: nat
    using monoD [OF assms, of a b] that by simp
  then show ?thesis
    unfolding ids_newImages by (simp add: sorted_wrt_iff_nth_less)
qed

lemma distinct_ids_newImages: "mono now \<Longrightarrow> distinct (map image_id (newImages now fs))"
  using sorted_ids_newImages [of now fs] by (simp add: strict_sorted_iff)

lemma length_attachResult: "length (attachResult i r imgs) = length imgs"
  by (simp add: attachResult_def)

lemma nth_attachResult:
  "p < length imgs \<Longrightarrow>
   attachResult i r imgs ! p =
     (if image_id (imgs ! p) = i then (imgs ! p)\<lparr>processedFile := Some r\<rparr> else imgs ! p)"
  by (simp add: attachResult_def)

lemma length_images_processLoop:
  "length (images (processLoop P batch s)) = length (images s)"
  by (induction batch arbitrary: s)
     (auto simp: length_attachResult split: settled.splits option.splits list.splits)

lemma consoleErrors_processLoop:
  "consoleErrors (processLoop P batch s) =
     consoleErrors s @
       concat (map (\<lambda>im. case P (inputFile im) of Rejected err \<Rightarrow> [err] | Resolved _ \<Rightarrow> []) batch)"
  by (induction batch arbitrary: s)
     (auto split: settled.splits option.splits list.splits)

lemma processLoop_other:
  "p < length (images s) \<Longrightarrow> image_id (images s ! p) \<notin> image_id ` set batch \<Longrightarrow>
   images (processLoop P batch s) ! p = images s ! p"
  by (induction batch arbitrary: s)
     (auto simp: nth_attachResult length_attachResult split: settled.splits option.splits list.splits)


lemma processLoop_member:
  "distinct (map image_id batch) \<Longrightarrow> k < length batch \<Longrightarrow> p < length (images s) \<Longrightarrow>
   image_id (images s ! p) = image_id (batch ! k) \<Longrightarrow>
   images (processLoop P batch s) ! p =
     (case P (inputFile (batch ! k)) of
        Resolved (Some (result0 # rest)) \<Rightarrow> (images s ! p)\<lparr>processedFile := Some result0\<rparr>
      | _ \<Rightarrow> images s ! p)"
proof (induction batch arbitrary: s k)
  case Nil
  then show ?case by simp
next
  case (Cons b bs)
  let ?s' = "case P (inputFile b) of
               Resolved result \<Rightarrow>
                 (case result of
                    Some (result0 # _) \<Rightarrow>
                      s\<lparr>images := attachResult (image_id b) result0 (images s)\<rparr>
                  | _ \<Rightarrow> s)
             | Rejected err \<Rightarrow> s\<lparr>consoleErrors := consoleErrors s @ [err]\<rparr>"
  have loop: "processLoop P (b # bs) s = processLoop P bs ?s'" by simp
  have len: "p < length (images ?s')"
    using Cons.prems(3)
    by (auto simp: length_attachResult split: settled.splits option.splits list.splits)
  have id_kept: "image_id (images ?s' ! p) = image_id (images s ! p)"
    using Cons.prems(3)
    by (auto simp: nth_attachResult split: settled.splits option.splits list.splits)
  show ?case
  proof (cases k)
    case 0
    have fresh: "image_id (images ?s' ! p) \<notin> image_id ` set bs"
      using Cons.prems(1,4) 0 unfolding id_kept by auto
    have "images (processLoop P (b # bs) s) ! p = images ?s' ! p"
      unfolding loop by (rule processLoop_other [OF len fresh])
    also have "\<dots> = (case P (inputFile b) of
                      Resolved (Some (result0 # rest)) \<Rightarrow> (images s ! p)\<lparr>processedFile := Some result0\<rparr>
                    | _ \<Rightarrow> images s ! p)"
      using Cons.prems(3,4) 0
      by (auto simp: nth_attachResult split: settled.splits option.splits list.splits)
    finally show ?thesis using 0 by simp
  next
    case (Suc k')
    have k': "k' < length bs" using Cons.prems(2) Suc by simp
    have "bs ! k' \<in> set bs" using k' by simp
    then have "image_id (bs ! k') \<in> image_id ` set bs" by (rule imageI)
    then have other: "image_id (images s ! p) \<noteq> image_id b"
      using Cons.prems(1,4) Suc by auto
    have same: "images ?s' ! p = images s ! p"
      using Cons.prems(3) other
      by (auto simp: nth_attachResult split: settled.splits option.splits list.splits)
    have d: "distinct (map image_id bs)" using Cons.prems(1) by simp
    have idk: "image_id (images ?s' ! p) = image_id (bs ! k')"
      using Cons.prems(4) Suc unfolding same by simp
    show ?thesis
      unfolding loop Cons.IH [OF d k' len idk] same using Suc by simp
  qed
qed

lemma inputFiles_newImages: "map inputFile (newImages now fs) = fs"
  by (rule nth_equalityI) (simp_all add: length_newImages nth_newImages)

lemma onDrop_enters_loop:
  assumes "closureLength \<noteq> 0 \<or> initializeModel None = Resolved True"
  shows "\<exists>s0. onDrop initializeModel gpu P now fs closureLength s
                = processLoop P (newImages now fs) s0
              \<and> images s0 = images s @ newImages now fs
              \<and> consoleErrors s0 = consoleErrors s"
  using assms by (auto simp: onDrop_def Let_def)

subsection \<open>A failing item does not stop the batch\<close>

text \<open>
  Claim C7. When a batch is dropped and the model is available (the callback saw a
  non-empty list, or the initialization succeeds) and the clock does not run backwards
  while the records are made, every file of the batch gets its record, at its position
  after the records already there, and the record's \<open>processedFile\<close> depends on the outcome
  of that file alone: the first result if \<^verbatim>\<open>processImages\<close> resolved with a non-empty array
  for it, absent otherwise. So a file whose processing throws stays unprocessed and
  changes nothing for the others. Each thrown value is logged, one entry per failing file
  in batch order, and nothing else is.
\<close>

theorem batch_isolation:
  assumes init: "closureLength \<noteq> 0 \<or> initializeModel None = Resolved True"
    and clock: "mono now"
    and j: "j < length acceptedFiles"
  shows
    "let s' = onDrop initializeModel isWebGPUSupported processImages now acceptedFiles
                closureLength s
     in length (images s') = length (images s) + length acceptedFiles
        \<and> images s' ! (length (images s) + j) =
            \<lparr>image_id = now j + int j, inputFile = acceptedFiles ! j,
             processedFile =
               (case processImages (acceptedFiles ! j) of
                  Resolved (Some (result0 # rest)) \<Rightarrow> Some result0
                | _ \<Rightarrow> None)\<rparr>
        \<and> consoleErrors s' =
            consoleErrors s @
              concat (map (\<lambda>f. case processImages f of Rejected err \<Rightarrow> [err] | Resolved _ \<Rightarrow> [])
                        acceptedFiles)"
proof -
  let ?batch = "newImages now acceptedFiles"
  let ?p = "length (images s) + j"
  obtain s0 where run:
      "onDrop initializeModel isWebGPUSupported processImages now acceptedFiles closureLength s
         = processLoop processImages ?batch s0"
    and imgs: "images s0 = images s @ ?batch"
    and cons: "consoleErrors s0 = consoleErrors s"
    using onDrop_enters_loop
      [where initializeModel = initializeModel and closureLength = closureLength, OF init]
    by blast
  have jb: "j < length ?batch" using j by (simp add: length_newImages)
  have p: "?p < length (images s0)" using j by (simp add: imgs length_newImages)
  have at_p: "images s0 ! ?p = ?batch ! j" by (simp add: imgs nth_append)
  have new_j: "?batch ! j =
      \<lparr>image_id = now j + int j, inputFile = acceptedFiles ! j, processedFile = None\<rparr>"
    using j by (rule nth_newImages)
  have len: "length (images (processLoop processImages ?batch s0))
               = length (images s) + length acceptedFiles"
    by (simp add: length_images_processLoop imgs length_newImages)
  have rec: "images (processLoop processImages ?batch s0) ! ?p =
      (case processImages (inputFile (?batch ! j)) of
         Resolved (Some (result0 # rest)) \<Rightarrow> (images s0 ! ?p)\<lparr>processedFile := Some result0\<rparr>
       | _ \<Rightarrow> images s0 ! ?p)"
    by (rule processLoop_member [OF distinct_ids_newImages [OF clock] jb p]) (simp add: at_p)
  have rec': "images (processLoop processImages ?batch s0) ! ?p =
      \<lparr>image_id = now j + int j, inputFile = acceptedFiles ! j,
       processedFile =
         (case processImages (acceptedFiles ! j) of
            Resolved (Some (result0 # rest)) \<Rightarrow> Some result0
          | _ \<Rightarrow> None)\<rparr>"
    unfolding rec at_p new_j
    by (simp split: settled.splits option.splits list.splits)
  have "map (\<lambda>im. case processImages (inputFile im) of Rejected err \<Rightarrow> [err] | Resolved _ \<Rightarrow> [])
          ?batch
        = map (\<lambda>f. case processImages f of Rejected err \<Rightarrow> [err] | Resolved _ \<Rightarrow> [])
            (map inputFile ?batch)"
    by (simp add: comp_def)
  then have log: "consoleErrors (processLoop processImages ?batch s0) =
      consoleErrors s @
        concat (map (\<lambda>f. case processImages f of Rejected err \<Rightarrow> [err] | Resolved _ \<Rightarrow> [])
                  acceptedFiles)"
    by (simp add: consoleErrors_processLoop cons inputFiles_newImages)
  show ?thesis
    unfolding Let_def run using len rec' log by simp
qed

theorem batch_isolation_witness:
  "images
     (onDrop (\<lambda>m. Resolved False) True
        (\<lambda>f. if f = ''bad.png'' then Rejected (ErrorObj ''cannot decode'')
             else Resolved (Some [f @ ''.cutout'']))
        (\<lambda>k. 1000) [''a.png'', ''bad.png'', ''c.png''] 1
        (initialAppState\<lparr>isLoading := False,
           images := [\<lparr>image_id = 7, inputFile = ''old.png'', processedFile = None\<rparr>]\<rparr>)) ! 3
     = \<lparr>image_id = 1002, inputFile = ''c.png'', processedFile = Some ''c.png.cutout''\<rparr>
   \<and> images
       (onDrop (\<lambda>m. Resolved False) True
          (\<lambda>f. if f = ''bad.png'' then Rejected (ErrorObj ''cannot decode'')
               else Resolved (Some [f @ ''.cutout'']))
          (\<lambda>k. 1000) [''a.png'', ''bad.png'', ''c.png''] 1
          (initialAppState\<lparr>isLoading := False,
             images := [\<lparr>image_id = 7, inputFile = ''old.png'', processedFile = None\<rparr>]\<rparr>)) ! 2
     = \<lparr>image_id = 1001, inputFile = ''bad.png'', processedFile = None\<rparr>
   \<and> consoleErrors
       (onDrop (\<lambda>m. Resolved False) True
          (\<lambda>f. if f = ''bad.png'' then Rejected (ErrorObj ''cannot decode'')
               else Resolved (Some [f @ ''.cutout'']))
          (\<lambda>k. 1000) [''a.png'', ''bad.png'', ''c.png''] 1
          (initialAppState\<lparr>isLoading := False,
             images := [\<lparr>image_id = 7, inputFile = ''old.png'', processedFile = None\<rparr>]\<rparr>))
     = [ErrorObj ''cannot decode'']"
proof -
  have m: "mono (\<lambda>k :: nat. 1000 :: int)" by (simp add: mono_def)
  have i: "(1::nat) \<noteq> 0 \<or> (\<lambda>m. Resolved False) None = Resolved True" by simp
  have j: "(2::nat) < length [''a.png'', ''bad.png'', ''c.png'']" by simp
  show ?thesis
    using batch_isolation
      [where closureLength = 1 and initializeModel = "\<lambda>m. Resolved False"
         and now = "\<lambda>k. 1000" and j = 2 and acceptedFiles = "[''a.png'', ''bad.png'', ''c.png'']"
         and isWebGPUSupported = True
         and processImages = "\<lambda>f. if f = ''bad.png'' then Rejected (ErrorObj ''cannot decode'')
               else Resolved (Some [f @ ''.cutout''])"
         and s = "initialAppState\<lparr>isLoading := False,
             images := [\<lparr>image_id = 7, inputFile = ''old.png'', processedFile = None\<rparr>]\<rparr>",
       OF i m j]
    by code_simp
qed

subsection \<open>A completion that arrives after the deletion\<close>


lemma ids_attachResult: "map image_id (attachResult i r imgs) = map image_id imgs"
  by (simp add: attachResult_def)

lemma attachResult_absent: "i \<notin> image_id ` set imgs \<Longrightarrow> attachResult i r imgs = imgs"
  unfolding attachResult_def by (rule map_idI) auto

lemma absent_after_onDelete: "i \<notin> image_id ` set (images (onDelete i s))"
  by (auto simp: onDelete_def)

lemma ids_after_update:
  "image_id ` set (images (applyUpdate u s)) \<subseteq> image_id ` set (images s) \<union> set (issued u)"
proof (cases u)
  case (Append now fs)
  then show ?thesis by auto
next
  case (Completion k r)
  have "set (map image_id (attachResult k r (images s))) = set (map image_id (images s))"
    by (simp only: ids_attachResult)
  then have "image_id ` set (attachResult k r (images s)) = image_id ` set (images s)"
    by (simp only: set_map)
  then show ?thesis using Completion by simp
next
  case (Deletion k)
  then show ?thesis by (auto simp: onDelete_def)
next
  case Reset
  then show ?thesis by simp
qed

lemma absent_after_updates:
  "i \<notin> image_id ` set (images s) \<Longrightarrow> i \<notin> set (concat (map issued updates)) \<Longrightarrow>
   i \<notin> image_id ` set (images (fold applyUpdate updates s))"
proof (induction updates arbitrary: s)
  case Nil
  then show ?case by simp
next
  case (Cons u us)
  have "i \<notin> image_id ` set (images (applyUpdate u s))"
    using ids_after_update [of u s] Cons.prems by auto
  moreover have "i \<notin> set (concat (map issued us))" using Cons.prems(2) by simp
  ultimately show ?case using Cons.IH by simp
qed

text \<open>
  As long as no later drop issues the id \<open>i\<close> again, the claim holds: after the record
  with id \<open>i\<close> is deleted, and after any further updates of the list, no record has the
  id \<open>i\<close>, and a completion for \<open>i\<close> leaves the state as it is; so does the iteration of
  the processing loop that completes a deleted image.
\<close>

theorem late_completion_is_noop:
  assumes "i \<notin> set (concat (map issued updates))"
  shows
    "let s' = fold applyUpdate updates (onDelete i s)
     in i \<notin> image_id ` set (images s')
        \<and> applyUpdate (Completion i res) s' = s'
        \<and> (image_id im = i \<longrightarrow> images (processLoop processImages [im] s') = images s')"
proof -
  let ?s' = "fold applyUpdate updates (onDelete i s)"
  have absent: "i \<notin> image_id ` set (images ?s')"
    by (rule absent_after_updates [OF absent_after_onDelete assms])
  then have same: "attachResult i res (images ?s') = images ?s'" for res
    by (rule attachResult_absent)
  have noop: "applyUpdate (Completion i res) ?s' = ?s'"
    by (simp add: same)
  have loop: "image_id im = i \<Longrightarrow> images (processLoop processImages [im] ?s') = images ?s'"
    by (simp add: same split: settled.splits option.splits list.splits)
  show ?thesis
    unfolding Let_def noop using absent loop by simp
qed

theorem late_completion_is_noop_witness:
  "1001 \<notin> set (concat (map issued [Append (\<lambda>k. 1005) [''c.png''], Completion 1000 ''a.cutout'']))
   \<and> images
      (applyUpdate (Completion 1001 ''b.cutout'')
        (fold applyUpdate [Append (\<lambda>k. 1005) [''c.png''], Completion 1000 ''a.cutout'']
           (onDelete 1001
              (initialAppState\<lparr>images :=
                 [\<lparr>image_id = 1000, inputFile = ''a.png'', processedFile = None\<rparr>,
                  \<lparr>image_id = 1001, inputFile = ''b.png'', processedFile = None\<rparr>]\<rparr>))))
     = [\<lparr>image_id = 1000, inputFile = ''a.png'', processedFile = Some ''a.cutout''\<rparr>,
        \<lparr>image_id = 1005, inputFile = ''c.png'', processedFile = None\<rparr>]"
  using late_completion_is_noop
    [where updates = "[Append (\<lambda>k. 1005) [''c.png''], Completion 1000 ''a.cutout'']"
       and i = 1001 and res = "''b.cutout''"
       and s = "initialAppState\<lparr>images :=
                 [\<lparr>image_id = 1000, inputFile = ''a.png'', processedFile = None\<rparr>,
                  \<lparr>image_id = 1001, inputFile = ''b.png'', processedFile = None\<rparr>]\<rparr>"
       and im = "\<lparr>image_id = 1001, inputFile = ''b.png'', processedFile = None\<rparr>"
       and processImages = "\<lambda>f. Resolved (Some [''b.cutout''])"]
  by code_simp

subsection \<open>Record ids\<close>

text \<open>
  Claim C4 says that the ids of one session are pairwise distinct and increase in
  insertion order. The id is \<^verbatim>\<open>Date.now() + index\<close>, so a drop of two files at time \<open>1000\<close>
  followed by a drop of one file at time \<open>1001\<close> gives two records the id \<open>1001\<close>.
\<close>

theorem ids_collide_across_drops:
  "map image_id
     (images
        (onDrop (\<lambda>m. Resolved True) True (\<lambda>f. Resolved None) (\<lambda>k. 1001) [''c.png''] 2
           (onDrop (\<lambda>m. Resolved True) True (\<lambda>f. Resolved None) (\<lambda>k. 1000)
              [''a.png'', ''b.png''] 0 initialAppState)))
   = [1000, 1001, 1001]"
  by code_simp

lemma set_ids_newImages:
  "set (map image_id (newImages now fs)) = (\<lambda>k. now k + int k) ` {0..<length fs}"
  unfolding ids_newImages by simp

text \<open>
  While the clock does not run backwards, the ids of one drop are distinct and increase
  with the position, and two drops keep this when every clock value of the later one is at
  least a clock value of the earlier one plus the earlier batch's size.
\<close>

theorem ids_of_separated_drops:
  assumes "mono now1" and "mono now2"
    and "\<And>a b. now1 a + int (length files1) \<le> now2 b"
  shows "sorted_wrt (<) (map image_id (newImages now1 files1 @ newImages now2 files2))
         \<and> distinct (map image_id (newImages now1 files1 @ newImages now2 files2))"
proof -
  have cross: "x < y"
    if x: "x \<in> set (map image_id (newImages now1 files1))"
      and y: "y \<in> set (map image_id (newImages now2 files2))" for x y
  proof -
    obtain a where a: "a < length files1" "x = now1 a + int a"
      using x unfolding set_ids_newImages by auto
    obtain b where b: "y = now2 b + int b"
      using y unfolding set_ids_newImages by auto
    show ?thesis using a b assms(3) [of a b] by simp
  qed
  have s: "sorted_wrt (<) (map image_id (newImages now1 files1 @ newImages now2 files2))"
    unfolding map_append sorted_wrt_append
    using cross sorted_ids_newImages [OF assms(1)] sorted_ids_newImages [OF assms(2)] by blast
  then show ?thesis
    by (simp add: strict_sorted_iff)
qed

theorem ids_of_separated_drops_witness:
  "map image_id (newImages (\<lambda>k. 1000) [''a.png'', ''b.png''] @ newImages (\<lambda>k. 1002) [''c.png''])
   = [1000, 1001, 1002]
   \<and> distinct (map image_id
        (newImages (\<lambda>k. 1000) [''a.png'', ''b.png''] @ newImages (\<lambda>k. 1002) [''c.png'']))"
  using ids_of_separated_drops [of "\<lambda>k. 1000" "\<lambda>k. 1002" "[''a.png'', ''b.png'']" "[''c.png'']"]
  by (simp add: newImages_def enumerate_eq_zip mono_def)

end
